theory Spec2Isabelle
  imports Main "HOL-Library.Word" "HOL-Library.Signed_Division"
begin

section \<open>Data model of bench.go\<close>

text \<open>
  Go's \<open>uint\<close> is taken at its 64-bit width, \<open>uint32\<close> is a 32-bit word and
  \<open>time.Duration\<close> is an \<open>int64\<close> count of nanoseconds: a 64-bit word that is
  compared and divided through its signed reading.
\<close>

type_synonym uint = "64 word"
type_synonym uint32 = "32 word"
type_synonym duration = "64 word"
type_synonym time = int

text \<open>\<open>url.Values\<close>; the nil map and the empty map are both the empty list.\<close>

type_synonym url_values = "(string \<times> string list) list"

text \<open>\<open>map[string]any\<close>, each value kept as its JSON text.\<close>

type_synonym json_map = "(string \<times> string) list"

text \<open>
  The values of Go's \<open>error\<close> interface that the program meets: the sentinel
  \<open>http.ErrHandlerTimeout\<close> the worker compares with, a \<open>*url.Error\<close> (operation,
  URL, and what its \<open>Timeout()\<close> method reports), and an \<open>errors.New\<close> value.
\<close>

datatype go_error =
    ErrHandlerTimeout
  | UrlError string string bool
  | ErrorString string

datatype go_panic = DivideByZero

record response =
  StatusCode :: int

record request =
  req_method :: string
  req_url :: string
  req_body :: "string option"

record http_client =
  Timeout :: duration

record stats =
  LaunchTime :: time
  Runtime :: duration
  RequestsPerSecond :: uint32
  RequestsTotal :: uint32
  RequestsSuccess :: uint32
  RequestsFail :: uint32
  RequestsTimeout :: uint32
  DelayMin :: duration
  DelayAvg :: duration
  DelayMax :: duration

record task =
  task_url :: string
  task_method :: string
  task_data :: "string option"

text \<open>The struct \<open>bench\<close>; its field \<open>method\<close> is \<open>http_method\<close> here.\<close>

record bench =
  requests :: uint
  concurrency :: uint
  timeout :: uint
  host :: string
  http_method :: string
  params :: url_values
  data :: "json_map option"
  stats :: stats
  client :: http_client

text \<open>The six command-line flags after \<open>flag.Parse\<close>.\<close>

record flags =
  flag_n :: uint
  flag_c :: uint
  flag_t :: uint
  flag_h :: string
  flag_m :: string
  flag_p :: string

text \<open>
  What one call of \<open>client.Do\<close> returns, and the latency \<open>time.Since(start)\<close>
  measured around it.
\<close>

type_synonym attempt = "(go_error + response) \<times> duration"

text \<open>
  The standard library and the outside world are parameters of the model:
  \<open>flag.Parse\<close> on the command line (\<open>None\<close> when it prints the usage and ends the
  process with status 2), \<open>url.ParseRequestURI\<close> followed by \<open>String()\<close>,
  \<open>url.ParseQuery\<close>, \<open>Values.Encode\<close>, \<open>json.Marshal\<close>, \<open>http.NewRequest\<close>,
  \<open>Client.Do\<close> (by request, worker and iteration), \<open>time.Now\<close> and \<open>time.Since\<close>, and
  whether the watcher goroutine of \<open>main\<close>, once the context is cancelled, prints and
  exits before the process has ended.
\<close>

record golib =
  flag_Parse :: "string list \<Rightarrow> flags option"
  url_ParseRequestURI :: "string \<Rightarrow> go_error + string"
  url_ParseQuery :: "string \<Rightarrow> go_error + url_values"
  values_Encode :: "url_values \<Rightarrow> string"
  json_Marshal :: "json_map \<Rightarrow> string"
  http_NewRequest :: "string \<Rightarrow> string \<Rightarrow> string option \<Rightarrow> go_error + request"
  client_Do :: "request \<Rightarrow> nat \<Rightarrow> nat \<Rightarrow> attempt"
  time_Now :: time
  time_Since :: "time \<Rightarrow> duration"
  watcher_wins :: bool

text \<open>
  The \<open>float64\<close> held by \<open>rps\<close>: the quotient of a count by a non-zero number of
  nanoseconds (its rounding is not modelled), or what IEEE 754 gives for a zero divisor.
\<close>

datatype float64 = Ratio uint32 duration | PosInf | NaN

text \<open>Go's division of one \<open>int64\<close> by another truncates towards zero.\<close>

definition duration_div :: "duration \<Rightarrow> duration \<Rightarrow> duration" where
  "duration_div a b = word_of_int (sint a sdiv sint b)"

section \<open>The operations\<close>

definition zero_stats :: stats where
  "zero_stats = \<lparr>LaunchTime = 0, Runtime = 0, RequestsPerSecond = 0, RequestsTotal = 0,
     RequestsSuccess = 0, RequestsFail = 0, RequestsTimeout = 0,
     DelayMin = 0, DelayAvg = 0, DelayMax = 0\<rparr>"

definition NewBench :: bench where
  "NewBench = \<lparr>requests = 0, concurrency = 0, timeout = 0, host = [], http_method = [],
     params = [], data = None, stats = zero_stats, client = \<lparr>Timeout = 0\<rparr>\<rparr>"

definition allowed_methods :: "string list" where
  "allowed_methods = [''GET'', ''POST'', ''PUT'', ''PATCH'', ''DELETE'']"

text \<open>
  \<open>ParseArgs\<close> from line 65 on, with the flags that \<open>flag.Parse\<close> has read in line 63;
  \<open>flag.Parse\<close> itself, which ends the process on a command line it rejects, is
  taken in \<open>main_argv\<close> below. The bench is returned as it stands when the error is
  returned.
\<close>

definition ParseArgs :: "golib \<Rightarrow> flags \<Rightarrow> bench \<Rightarrow> bench \<times> go_error option" where
  "ParseArgs lib f b =
     (let b1 = b\<lparr>requests := flag_n f, concurrency := flag_c f, timeout := flag_t f\<rparr> in
      if List.member allowed_methods (flag_m f) then
        (let b2 = b1\<lparr>http_method := flag_m f\<rparr> in
         case url_ParseRequestURI lib (flag_h f) of
           Inl err \<Rightarrow> (b2, Some (ErrorString ''invalid URL''))
         | Inr u \<Rightarrow>
             (let b3 = b2\<lparr>host := u\<rparr>;
                  b4 = (case url_ParseQuery lib (flag_p f) of
                          Inl err \<Rightarrow> b3
                        | Inr p \<Rightarrow> b3\<lparr>params := p\<rparr>)
              in (b4\<lparr>client := \<lparr>Timeout = 1000000 * timeout b4\<rparr>\<rparr>, None)))
      else (b1, Some (ErrorString ''unsupported HTTP method'')))"

text \<open>Lines 124 to 132: the classification of one outcome.\<close>

definition classify :: "go_error + response \<Rightarrow> stats \<Rightarrow> stats" where
  "classify r s =
     (case r of
        Inl err \<Rightarrow>
          (let s1 = s\<lparr>RequestsFail := RequestsFail s + 1\<rparr> in
           if err = ErrHandlerTimeout then s1\<lparr>RequestsTimeout := RequestsTimeout s1 + 1\<rparr>
           else s1)
      | Inr resp \<Rightarrow>
          (if StatusCode resp = 200 then s\<lparr>RequestsSuccess := RequestsSuccess s + 1\<rparr>
           else s))"

text \<open>
  Lines 135 to 137 and lines 138 to 140: the two extremum updates, each run without
  interference from another worker.
\<close>

definition update_min :: "duration \<Rightarrow> stats \<Rightarrow> stats" where
  "update_min delay s =
     (if DelayMin s = 0 \<or> delay <s DelayMin s then s\<lparr>DelayMin := delay\<rparr> else s)"

definition update_max :: "duration \<Rightarrow> stats \<Rightarrow> stats" where
  "update_max delay s = (if DelayMax s <s delay then s\<lparr>DelayMax := delay\<rparr> else s)"

definition update_extrema :: "duration \<Rightarrow> stats \<Rightarrow> stats" where
  "update_extrema delay s = update_max delay (update_min delay s)"

text \<open>The body of the worker's loop, lines 120 to 140.\<close>

definition iteration :: "attempt \<Rightarrow> stats \<Rightarrow> stats" where
  "iteration a s =
     update_extrema (snd a) (classify (fst a) (s\<lparr>RequestsTotal := RequestsTotal s + 1\<rparr>))"

text \<open>
  The loop \<open>for i := uint(0); i < numRequest; i++\<close>, as the iterations from \<open>i\<close> with
  \<open>k\<close> of them left.
\<close>

fun attempts :: "(nat \<Rightarrow> attempt) \<Rightarrow> nat \<Rightarrow> nat \<Rightarrow> stats \<Rightarrow> stats" where
  "attempts do i 0 s = s"
| "attempts do i (Suc k) s = attempts do (Suc i) k (iteration (do i) s)"

text \<open>
  \<open>LaunchTask\<close> as run by worker \<open>w\<close>. Line 114 builds the request from the task's
  method and URL with a nil body; a failure to build it returns before the loop.
\<close>

definition worker_request :: "golib \<Rightarrow> task \<Rightarrow> go_error + request" where
  "worker_request lib t = http_NewRequest lib (task_method t) (task_url t) None"

definition LaunchTask :: "golib \<Rightarrow> nat \<Rightarrow> uint \<Rightarrow> task \<Rightarrow> bench \<Rightarrow> bench" where
  "LaunchTask lib w numRequest t b =
     (case worker_request lib t of
        Inl err \<Rightarrow> b
      | Inr req \<Rightarrow> b\<lparr>stats := attempts (client_Do lib req w) 0 (unat numRequest) (stats b)\<rparr>)"

text \<open>Lines 94 to 101: the task descriptor.\<close>

definition build_task :: "golib \<Rightarrow> bench \<Rightarrow> task" where
  "build_task lib b =
     (let t = \<lparr>task_url = host b @ ''?'' @ values_Encode lib (params b),
               task_method = [], task_data = None\<rparr>
      in case data b of
           None \<Rightarrow> t
         | Some d \<Rightarrow> t\<lparr>task_data := Some (json_Marshal lib d)\<rparr>)"

text \<open>
  The loop of lines 103 to 109 with the workers run one after the other: worker \<open>w\<close>
  and the \<open>k\<close> workers after it. The workers are goroutines; taking them in turn is
  exact for the four counters, which are only ever incremented atomically, and for a
  single worker. It says nothing of \<open>DelayMin\<close> and \<open>DelayMax\<close> when two or more workers
  run: for these see the interleaved workers below.
\<close>

fun workers :: "golib \<Rightarrow> uint \<Rightarrow> task \<Rightarrow> nat \<Rightarrow> nat \<Rightarrow> bench \<Rightarrow> bench" where
  "workers lib numRequests t w 0 b = b"
| "workers lib numRequests t w (Suc k) b =
     workers lib numRequests t (Suc w) k (LaunchTask lib w numRequests t b)"

text \<open>\<open>Run\<close>; the integer division of line 92 panics on a zero divisor.\<close>

definition Run :: "golib \<Rightarrow> bench \<Rightarrow> go_panic + bench" where
  "Run lib b =
     (let b1 = b\<lparr>stats := (stats b)\<lparr>LaunchTime := time_Now lib\<rparr>\<rparr> in
      if concurrency b1 = 0 then Inl DivideByZero
      else
        (let numRequests = requests b1 div concurrency b1;
             t = build_task lib b1
         in Inr (workers lib numRequests t 0 (unat (concurrency b1)) b1)))"

text \<open>Line 147: \<open>float64(total) / runtime.Seconds()\<close>.\<close>

definition rps_of :: "uint32 \<Rightarrow> duration \<Rightarrow> float64" where
  "rps_of n runtime =
     (if runtime = 0 then (if n = 0 then NaN else PosInf) else Ratio n runtime)"

text \<open>\<open>PrintResult\<close>: the updated statistics and the local \<open>rps\<close> that is printed.\<close>

definition PrintResult :: "golib \<Rightarrow> bench \<Rightarrow> bench \<times> float64" where
  "PrintResult lib b =
     (let s1 = (stats b)\<lparr>Runtime := time_Since lib (LaunchTime (stats b))\<rparr>;
          rps = rps_of (RequestsTotal s1) (Runtime s1);
          s2 = s1\<lparr>DelayAvg := duration_div (DelayMax s1 - DelayMin s1) 2\<rparr>
      in (b\<lparr>stats := s2\<rparr>, rps))"

text \<open>
  How the process ends: \<open>flag.Parse\<close> has printed the usage (status 2);
  \<open>log.Fatalln\<close> has printed the error of \<open>ParseArgs\<close> (status 1); the panic of \<open>Run\<close>
  has crashed it (status 2); \<open>main\<close> has printed the report and returned (status 0);
  or the watcher goroutine has printed the report and called \<open>os.Exit(1)\<close>.
\<close>

datatype exit =
    Usage
  | Fatal go_error
  | Panicked go_panic
  | Finished bench float64
  | Watcher_exit bench float64

text \<open>
  \<open>main\<close> from line 16 of main.go on, for a command line that \<open>flag.Parse\<close> has
  turned into the flags \<open>f\<close>, when no interrupt signal arrives. \<open>log.Fatalln\<close> exits
  at once, before the watcher is started. A panic of \<open>Run\<close> and the return of \<open>main\<close>
  both run the deferred \<open>cancel()\<close>, which wakes the watcher: it then calls
  \<open>PrintResult\<close> on the bench as it is and exits with status 1, if it gets there before
  the process has ended.
\<close>

definition main :: "golib \<Rightarrow> flags \<Rightarrow> exit" where
  "main lib f =
     (case ParseArgs lib f NewBench of
        (b, Some err) \<Rightarrow> Fatal err
      | (b, None) \<Rightarrow>
          (case Run lib b of
             Inl p \<Rightarrow>
               (if watcher_wins lib
                then (case PrintResult lib (b\<lparr>stats := (stats b)\<lparr>LaunchTime := time_Now lib\<rparr>\<rparr>) of
                        (b'', rps) \<Rightarrow> Watcher_exit b'' rps)
                else Panicked p)
           | Inr b' \<Rightarrow>
               (case PrintResult lib b' of
                  (b'', rps) \<Rightarrow>
                    (if watcher_wins lib
                     then (case PrintResult lib b'' of (b3, rps3) \<Rightarrow> Watcher_exit b3 rps3)
                     else Finished b'' rps))))"


text \<open>
  An absolute URL begins with a scheme and a colon (RFC 3986, section 4.3). \<open>getScheme\<close>
  finds the scheme as package \<open>net/url\<close> does: letters, digits, \<open>+\<close>, \<open>-\<close> and \<open>.\<close> up
  to a colon, the first of them a letter; the empty string when there is none.
\<close>

definition is_letter :: "char \<Rightarrow> bool" where
  "is_letter c =
     ((97 \<le> (of_char c :: int) \<and> (of_char c :: int) \<le> 122) \<or>
      (65 \<le> (of_char c :: int) \<and> (of_char c :: int) \<le> 90))"

definition is_scheme_char :: "char \<Rightarrow> bool" where
  "is_scheme_char c =
     (is_letter c \<or> (48 \<le> (of_char c :: int) \<and> (of_char c :: int) \<le> 57) \<or>
      c = CHR ''+'' \<or> c = CHR ''-'' \<or> c = CHR ''.'')"

definition getScheme :: "string \<Rightarrow> string" where
  "getScheme h =
     (let s = takeWhile is_scheme_char h in
      if s \<noteq> [] \<and> is_letter (hd s) \<and> take 1 (drop (length s) h) = '':'' then s else [])"

definition has_scheme :: "string \<Rightarrow> bool" where
  "has_scheme h = (getScheme h \<noteq> [])"

text \<open>The four counters of a bench: total, success, fail, timeout.\<close>

definition counters :: "bench \<Rightarrow> uint32 \<times> uint32 \<times> uint32 \<times> uint32" where
  "counters b =
     (RequestsTotal (stats b), RequestsSuccess (stats b), RequestsFail (stats b),
      RequestsTimeout (stats b))"

text \<open>
  The attempts that line 130 counts as successes, and how many of them worker \<open>w\<close>
  meets in its first \<open>k\<close> iterations.
\<close>

definition answered_200 :: "attempt \<Rightarrow> bool" where
  "answered_200 a = (case fst a of Inl err \<Rightarrow> False | Inr resp \<Rightarrow> StatusCode resp = 200)"

definition successes :: "golib \<Rightarrow> request \<Rightarrow> nat \<Rightarrow> nat \<Rightarrow> nat" where
  "successes lib req k w =
     length (filter (\<lambda>i. answered_200 (client_Do lib req w i)) [0..<k])"

text \<open>
  An error indicates a timeout when it is the sentinel or when its \<open>Timeout()\<close> method
  reports true. \<open>Client.Do\<close> is documented to return only \<open>*url.Error\<close> values, whose
  \<open>Timeout()\<close> is true when the request timed out.
\<close>

fun indicates_timeout :: "go_error \<Rightarrow> bool" where
  "indicates_timeout ErrHandlerTimeout = True"
| "indicates_timeout (UrlError opn u t) = t"
| "indicates_timeout (ErrorString m) = False"

section \<open>The workers interleaved\<close>

text \<open>
  \<open>Run\<close> starts the workers as goroutines, so their accesses to the shared statistics
  interleave. Each step below makes at most one access to shared memory: an
  \<open>atomic.AddUint32\<close> is one step; the plain reads and writes of \<open>DelayMin\<close> and
  \<open>DelayMax\<close> in lines 135 to 140 are one step each, the test of a read value being
  local to the worker.
\<close>

datatype pc =
    AddTotal
  | Classify
  | AddTimeout
  | LoadMinZero
  | LoadMinLess
  | StoreMin
  | LoadMax
  | StoreMax
  | Done

record worker =
  w_pc :: pc
  w_i :: nat
  w_n :: nat

definition start_worker :: "nat \<Rightarrow> worker" where
  "start_worker n = \<lparr>w_pc = (if 0 < n then AddTotal else Done), w_i = 0, w_n = n\<rparr>"

text \<open>The end of the loop body: \<open>i++\<close> and the test \<open>i < numRequest\<close>.\<close>

definition next_iteration :: "worker \<Rightarrow> worker" where
  "next_iteration t =
     t\<lparr>w_pc := (if Suc (w_i t) < w_n t then AddTotal else Done), w_i := Suc (w_i t)\<rparr>"

definition worker_step :: "(nat \<Rightarrow> attempt) \<Rightarrow> worker \<Rightarrow> stats \<Rightarrow> worker \<times> stats" where
  "worker_step do t s =
     (let outcome = fst (do (w_i t)); delay = snd (do (w_i t)) in
      case w_pc t of
        AddTotal \<Rightarrow> (t\<lparr>w_pc := Classify\<rparr>, s\<lparr>RequestsTotal := RequestsTotal s + 1\<rparr>)
      | Classify \<Rightarrow>
          (case outcome of
             Inl err \<Rightarrow>
               (t\<lparr>w_pc := (if err = ErrHandlerTimeout then AddTimeout else LoadMinZero)\<rparr>,
                s\<lparr>RequestsFail := RequestsFail s + 1\<rparr>)
           | Inr resp \<Rightarrow>
               (t\<lparr>w_pc := LoadMinZero\<rparr>,
                if StatusCode resp = 200 then s\<lparr>RequestsSuccess := RequestsSuccess s + 1\<rparr>
                else s))
      | AddTimeout \<Rightarrow> (t\<lparr>w_pc := LoadMinZero\<rparr>, s\<lparr>RequestsTimeout := RequestsTimeout s + 1\<rparr>)
      | LoadMinZero \<Rightarrow> (t\<lparr>w_pc := (if DelayMin s = 0 then StoreMin else LoadMinLess)\<rparr>, s)
      | LoadMinLess \<Rightarrow> (t\<lparr>w_pc := (if delay <s DelayMin s then StoreMin else LoadMax)\<rparr>, s)
      | StoreMin \<Rightarrow> (t\<lparr>w_pc := LoadMax\<rparr>, s\<lparr>DelayMin := delay\<rparr>)
      | LoadMax \<Rightarrow> (if DelayMax s <s delay then (t\<lparr>w_pc := StoreMax\<rparr>, s)
                    else (next_iteration t, s))
      | StoreMax \<Rightarrow> (next_iteration t, s\<lparr>DelayMax := delay\<rparr>)
      | Done \<Rightarrow> (t, s))"

text \<open>
  A schedule names the worker that takes each step. Worker \<open>w\<close> meets the outcomes
  \<open>do w\<close>.
\<close>

fun interleave :: "(nat \<Rightarrow> nat \<Rightarrow> attempt) \<Rightarrow> nat list \<Rightarrow> worker list \<times> stats \<Rightarrow> worker list \<times> stats" where
  "interleave do [] c = c"
| "interleave do (w # sched) (ts, s) =
     (if w < length ts
      then (case worker_step (do w) (ts ! w) s of
              (t', s') \<Rightarrow> interleave do sched (ts[w := t'], s'))
      else interleave do sched (ts, s))"

text \<open>One worker run alone for a number of steps.\<close>

fun alone :: "(nat \<Rightarrow> attempt) \<Rightarrow> nat \<Rightarrow> worker \<times> stats \<Rightarrow> worker \<times> stats" where
  "alone do 0 c = c"
| "alone do (Suc k) (t, s) = alone do k (worker_step do t s)"

text \<open>
  The number of \<open>atomic.AddUint32(&b.stats.RequestsTotal, 1)\<close> calls a worker has
  made, read off its position; and the positions a worker started by \<open>start_worker\<close>
  can reach.
\<close>

definition adds :: "worker \<Rightarrow> nat" where
  "adds t = w_i t + (if w_pc t = AddTotal \<or> w_pc t = Done then 0 else 1)"

definition wf_worker :: "worker \<Rightarrow> bool" where
  "wf_worker t = (if w_pc t = Done then w_i t = w_n t else w_i t < w_n t)"

section \<open>Stand-ins for the library in the examples\<close>

text \<open>
  The command line as \<open>flag.Parse\<close> reads it, for the six flags of \<open>ParseArgs\<close>:
  \<open>-name value\<close> or \<open>-name=value\<close>, with one dash or two, up to the first argument
  that is not a flag; an unknown flag, a missing value and a value of \<open>-n\<close>, \<open>-c\<close> or
  \<open>-t\<close> that is not a decimal number below \<open>2^64\<close> end the process.
\<close>

fun digits_value :: "string \<Rightarrow> int \<Rightarrow> int option" where
  "digits_value [] acc = Some acc"
| "digits_value (c # cs) acc =
     (if 48 \<le> (of_char c :: int) \<and> (of_char c :: int) \<le> 57
      then digits_value cs (10 * acc + ((of_char c :: int) - 48))
      else None)"

definition parse_uint :: "string \<Rightarrow> uint option" where
  "parse_uint v =
     (if v = [] then None
      else case digits_value v 0 of
             None \<Rightarrow> None
           | Some x \<Rightarrow> if x < 2 ^ 64 then Some (word_of_int x) else None)"

definition set_flag :: "string \<Rightarrow> string \<Rightarrow> flags \<Rightarrow> flags option" where
  "set_flag name v f =
     (if name = ''n'' then map_option (\<lambda>x. f\<lparr>flag_n := x\<rparr>) (parse_uint v)
      else if name = ''c'' then map_option (\<lambda>x. f\<lparr>flag_c := x\<rparr>) (parse_uint v)
      else if name = ''t'' then map_option (\<lambda>x. f\<lparr>flag_t := x\<rparr>) (parse_uint v)
      else if name = ''h'' then Some (f\<lparr>flag_h := v\<rparr>)
      else if name = ''m'' then Some (f\<lparr>flag_m := v\<rparr>)
      else if name = ''p'' then Some (f\<lparr>flag_p := v\<rparr>)
      else None)"

definition flag_name :: "string \<Rightarrow> string" where
  "flag_name a =
     takeWhile (\<lambda>c. c \<noteq> CHR ''='')
       (if take 2 a = ''--'' then drop 2 a else if take 1 a = ''-'' then drop 1 a else [])"

definition flag_value :: "string \<Rightarrow> string option" where
  "flag_value a =
     (if List.member a (CHR ''='') then Some (drop 1 (dropWhile (\<lambda>c. c \<noteq> CHR ''='') a))
      else None)"

fun parse_flags :: "string list \<Rightarrow> flags \<Rightarrow> flags option" where
  "parse_flags [] f = Some f"
| "parse_flags [a] f =
     (if flag_name a = [] then Some f
      else case flag_value a of
             None \<Rightarrow> None
           | Some v \<Rightarrow> set_flag (flag_name a) v f)"
| "parse_flags (a # v # rest) f =
     (if flag_name a = [] then Some f
      else case flag_value a of
             None \<Rightarrow>
               (case set_flag (flag_name a) v f of
                  None \<Rightarrow> None
                | Some f' \<Rightarrow> parse_flags rest f')
           | Some x \<Rightarrow>
               (case set_flag (flag_name a) x f of
                  None \<Rightarrow> None
                | Some f' \<Rightarrow> parse_flags (v # rest) f'))"

text \<open>
  The hosts \<open>url.ParseRequestURI\<close> takes: \<open>*\<close>, a string with a scheme, and a string
  without one that starts with a slash - an absolute URI or an absolute path; not the
  empty string, nor a string with a control character or a leading colon.
\<close>

definition parse_request_uri :: "string \<Rightarrow> go_error + string" where
  "parse_request_uri h =
     (if list_ex (\<lambda>c. (of_char c :: int) < 32 \<or> (of_char c :: int) = 127) h
      then Inl (ErrorString ''invalid control character in URL'')
      else if h = [] then Inl (ErrorString ''empty url'')
      else if h = ''*'' then Inr h
      else if take 1 h = '':'' then Inl (ErrorString ''missing protocol scheme'')
      else if has_scheme h \<or> take 1 h = ''/'' then Inr h
      else Inl (ErrorString ''invalid URI for request''))"

text \<open>
  A library to run the examples against: it reads the command line and the host as
  above, rejects a query string with a semicolon, builds a request as
  \<open>http.NewRequest\<close> does (an empty method means GET), and answers every \<open>Client.Do\<close>
  from the table \<open>do\<close>; the clock reads \<open>since\<close> at report time, and the process
  ends before the watcher has printed.
\<close>

definition default_flags :: flags where
  "default_flags =
     \<lparr>flag_n = 1000, flag_c = 1, flag_t = 100, flag_h = [], flag_m = ''GET'', flag_p = []\<rparr>"

definition mock_lib :: "(nat \<Rightarrow> nat \<Rightarrow> attempt) \<Rightarrow> duration \<Rightarrow> golib" where
  "mock_lib do since =
     \<lparr>flag_Parse = (\<lambda>args. parse_flags args default_flags),
      url_ParseRequestURI = parse_request_uri,
      url_ParseQuery =
        (\<lambda>p. if List.member p (CHR '';'')
             then Inl (ErrorString ''invalid semicolon separator in query'')
             else Inr (if p = [] then [] else [(p, [])])),
      values_Encode = (\<lambda>v. concat (map fst v)),
      json_Marshal = (\<lambda>d. concat (map fst d)),
      http_NewRequest =
        (\<lambda>m u bd. Inr \<lparr>req_method = (if m = [] then ''GET'' else m), req_url = u,
                        req_body = bd\<rparr>),
      client_Do = (\<lambda>req. do),
      time_Now = 0,
      time_Since = (\<lambda>t. since),
      watcher_wins = False\<rparr>"

definition status :: "int \<Rightarrow> duration \<Rightarrow> attempt" where
  "status code delay = (Inr \<lparr>StatusCode = code\<rparr>, delay)"

definition timed_out :: "duration \<Rightarrow> attempt" where
  "timed_out delay = (Inl (UrlError ''Get'' ''http://a?'' True), delay)"


text \<open>The flags at their defaults but for \<open>-h\<close>, \<open>-m\<close> and \<open>-p\<close>.\<close>

definition flags_of :: "string \<Rightarrow> string \<Rightarrow> string \<Rightarrow> flags" where
  "flags_of h m p =
     \<lparr>flag_n = 1000, flag_c = 1, flag_t = 100, flag_h = h, flag_m = m, flag_p = p\<rparr>"

definition bench_of :: "uint \<Rightarrow> uint \<Rightarrow> bench" where
  "bench_of n c = NewBench\<lparr>requests := n, concurrency := c, host := ''http://a''\<rparr>"

section \<open>The counters of a run\<close>

lemma classify_total [simp]: "RequestsTotal (classify r s) = RequestsTotal s"
  by (simp add: classify_def Let_def split: sum.splits)

lemma classify_min [simp]: "DelayMin (classify r s) = DelayMin s"
  by (simp add: classify_def Let_def split: sum.splits)

lemma classify_max [simp]: "DelayMax (classify r s) = DelayMax s"
  by (simp add: classify_def Let_def split: sum.splits)

text \<open>
  What one outcome adds to the success and failure counters together, and to the
  timeout counter.
\<close>

lemma classify_success_fail:
  "RequestsSuccess (classify r s) + RequestsFail (classify r s) =
   RequestsSuccess s + RequestsFail s +
     (case r of Inl err \<Rightarrow> 1 | Inr resp \<Rightarrow> if StatusCode resp = 200 then 1 else 0)"
  by (simp add: classify_def Let_def split: sum.splits)

lemma classify_timeout:
  "RequestsTimeout (classify r s) =
   RequestsTimeout s + (if r = Inl ErrHandlerTimeout then 1 else 0)"
  by (auto simp: classify_def Let_def split: sum.splits)

lemma update_extrema_total [simp]: "RequestsTotal (update_extrema d s) = RequestsTotal s"
  by (simp add: update_extrema_def update_min_def update_max_def)

lemma iteration_total: "RequestsTotal (iteration a s) = RequestsTotal s + 1"
  by (simp add: iteration_def)

lemma attempts_total: "RequestsTotal (attempts do i k s) = RequestsTotal s + word_of_nat k"
  by (induction k arbitrary: i s) (simp_all add: iteration_total)

lemma LaunchTask_total:
  "worker_request lib t = Inr req \<Longrightarrow>
   RequestsTotal (stats (LaunchTask lib w n t b)) = RequestsTotal (stats b) + word_of_nat (unat n)"
  by (simp add: LaunchTask_def attempts_total)

lemma workers_total:
  "worker_request lib t = Inr req \<Longrightarrow>
   RequestsTotal (stats (workers lib n t w k b)) =
     RequestsTotal (stats b) + word_of_nat (k * unat n)"
  by (induction k arbitrary: w b) (simp_all add: LaunchTask_total algebra_simps)

lemma build_task_fields:
  "task_method (build_task lib b) = []"
  "task_url (build_task lib b) = host b @ ''?'' @ values_Encode lib (params b)"
  by (simp_all add: build_task_def Let_def split: option.splits)

text \<open>
  Whatever method and body the bench holds, a worker asks \<open>http.NewRequest\<close> for the
  empty method and the nil body.
\<close>

lemma worker_request_build_task:
  "worker_request lib (build_task lib b) =
   http_NewRequest lib [] (host b @ ''?'' @ values_Encode lib (params b)) None"
  by (simp add: worker_request_def build_task_fields)

lemma Run_total:
  assumes "concurrency b \<noteq> 0"
    and "http_NewRequest lib [] (host b @ ''?'' @ values_Encode lib (params b)) None = Inr req"
  shows "map_sum id (RequestsTotal \<circ> stats) (Run lib b) =
     Inr (RequestsTotal (stats b) +
          word_of_nat (unat (concurrency b) * (unat (requests b) div unat (concurrency b))))"
  using assms
  by (simp add: Run_def Let_def workers_total [where req = req] worker_request_build_task
      unat_div)

text \<open>
  The success counter tells the workers apart: worker \<open>w\<close> adds the successes among
  its own iterations \<open>0\<close> to \<open>numRequests - 1\<close>.
\<close>

lemma classify_success:
  "RequestsSuccess (classify r s) =
   RequestsSuccess s +
     (case r of Inl err \<Rightarrow> 0 | Inr resp \<Rightarrow> if StatusCode resp = 200 then 1 else 0)"
  by (simp add: classify_def Let_def split: sum.splits)

lemma update_extrema_success [simp]:
  "RequestsSuccess (update_extrema d s) = RequestsSuccess s"
  by (simp add: update_extrema_def update_min_def update_max_def)

lemma iteration_success:
  "RequestsSuccess (iteration a s) = RequestsSuccess s + (if answered_200 a then 1 else 0)"
  by (simp add: iteration_def classify_success answered_200_def split: sum.splits)

lemma attempts_success:
  "RequestsSuccess (attempts do i k s) =
   RequestsSuccess s + word_of_nat (length (filter (\<lambda>j. answered_200 (do j)) [i..<i + k]))"
proof (induction k arbitrary: i s)
  case 0
  show ?case by simp
next
  case (Suc k)
  have "[i..<i + Suc k] = i # [Suc i..<Suc i + k]"
    by (simp add: upt_conv_Cons)
  then show ?case
    by (simp add: Suc iteration_success)
qed

lemma LaunchTask_success:
  "worker_request lib t = Inr req \<Longrightarrow>
   RequestsSuccess (stats (LaunchTask lib w n t b)) =
     RequestsSuccess (stats b) + word_of_nat (successes lib req (unat n) w)"
  by (simp add: LaunchTask_def attempts_success successes_def)

lemma workers_success:
  "worker_request lib t = Inr req \<Longrightarrow>
   RequestsSuccess (stats (workers lib n t w k b)) =
     RequestsSuccess (stats b) +
       word_of_nat (sum_list (map (successes lib req (unat n)) [w..<w + k]))"
proof (induction k arbitrary: w b)
  case 0
  show ?case by simp
next
  case (Suc k)
  have "[w..<w + Suc k] = w # [Suc w..<Suc w + k]"
    by (simp add: upt_conv_Cons)
  then show ?case
    using Suc.prems by (simp add: Suc.IH LaunchTask_success)
qed

lemma Run_success:
  assumes "concurrency b \<noteq> 0"
    and "worker_request lib (build_task lib b) = Inr req"
  shows "map_sum id (RequestsSuccess \<circ> stats) (Run lib b) =
     Inr (RequestsSuccess (stats b) +
          word_of_nat (sum_list
            (map (successes lib req (unat (requests b) div unat (concurrency b)))
               [0..<unat (concurrency b)])))"
proof -
  have t: "build_task lib (b\<lparr>stats := (stats b)\<lparr>LaunchTime := time_Now lib\<rparr>\<rparr>) =
      build_task lib b"
    by (simp add: build_task_def)
  show ?thesis
    using assms
      workers_success [OF assms(2), of "requests b div concurrency b" 0 "unat (concurrency b)"]
    by (simp add: Run_def Let_def t unat_div)
qed

lemma sum_list_single:
  "sum_list (map (\<lambda>v. if v = w0 then m else 0) [0..<c]) = (if w0 < c then m else (0::nat))"
  by (induction c) auto

lemma successes_selective:
  assumes "\<forall>w i. answered_200 (client_Do lib req w i) \<longleftrightarrow> w = w0"
  shows "successes lib req k = (\<lambda>w. if w = w0 then k else 0)"
  using assms by (auto simp: successes_def fun_eq_iff)

lemma member_allowed:
  "List.member allowed_methods m \<longleftrightarrow> m \<in> {''GET'', ''POST'', ''PUT'', ''PATCH'', ''DELETE''}"
  by (auto simp: allowed_methods_def)

section \<open>Classification of outcomes\<close>

text \<open>
  C1. The claim: after a completed run the total counter equals the success counter plus
  the failure counter, an answer with a non-success status counting as a failure. The
  code has no branch for an answer whose status is not 200 (lines 124 to 132): with five
  workers of two attempts each, answered 200 and then 500, the run ends with total 10,
  success 5 and fail 0, so five attempts are in neither bucket.
\<close>

theorem non_success_status_counted_nowhere:
  "map_sum id counters
     (Run (mock_lib (\<lambda>w i. status (if even i then 200 else 500) 5000000) 1000000000)
        (bench_of 10 5))
   = Inr (10, 5, 0, 0)"
  by code_simp

text \<open>
  C2. The claim: a transport error increments the failure counter and, when it indicates
  a timeout, the timeout counter too, so that a transport that always times out ends
  with fail = total, timeout = total and success = 0. Line 127 compares the error with
  the sentinel \<open>http.ErrHandlerTimeout\<close>; the \<open>*url.Error\<close> that \<open>Client.Do\<close> returns
  for a request that timed out is another value. Three attempts that all time out end
  with total 3, success 0, fail 3 and timeout 0.
\<close>

theorem client_timeout_not_counted:
  "indicates_timeout (UrlError ''Get'' ''http://a?'' True) \<and>
   map_sum id counters
     (Run (mock_lib (\<lambda>w i. timed_out 100000000) 1000000000) (bench_of 3 1))
   = Inr (3, 0, 3, 0)"
  by code_simp

section \<open>The task descriptor and the request\<close>

text \<open>
  C3. The claim: the task descriptor carries the composed URL, the configured method and
  the optional body, and the requests sent use that method and body. \<open>Run\<close> fills in
  the URL and the body of the task but never its method, and line 114 passes a nil body.
  With \<open>-m POST\<close> and a body on the bench, the bench holds POST, the task holds the
  empty method and the marshalled body, and the request a worker builds is a GET without
  a body.
\<close>

theorem task_drops_method_and_body:
  "(case ParseArgs (mock_lib (\<lambda>w i. status 200 5000000) 1000000000)
           \<lparr>flag_n = 10, flag_c = 2, flag_t = 100, flag_h = ''http://a'', flag_m = ''POST'',
             flag_p = ''x=1''\<rparr> NewBench of
      (b, err) \<Rightarrow>
        (err, http_method b,
         build_task (mock_lib (\<lambda>w i. status 200 5000000) 1000000000)
           (b\<lparr>data := Some [(''k'', ''1'')]\<rparr>),
         worker_request (mock_lib (\<lambda>w i. status 200 5000000) 1000000000)
           (build_task (mock_lib (\<lambda>w i. status 200 5000000) 1000000000)
              (b\<lparr>data := Some [(''k'', ''1'')]\<rparr>))))
   = (None, ''POST'',
      \<lparr>task_url = ''http://a?x=1'', task_method = [], task_data = Some ''k''\<rparr>,
      Inr \<lparr>req_method = ''GET'', req_url = ''http://a?x=1'', req_body = None\<rparr>)"
  by code_simp

section \<open>The report\<close>

text \<open>
  C4. The claim: the reported average latency is the midpoint of the extrema,
  \<open>DelayAvg = (DelayMin + DelayMax) / 2\<close>. Line 148 subtracts: after two attempts of 4 ms
  and 10 ms the report holds minimum 4 ms, maximum 10 ms and average 3 ms, where the
  midpoint is 7 ms.
\<close>

theorem DelayAvg_is_half_the_spread:
  "(case main (mock_lib (\<lambda>w i. status 200 (if i = 0 then 4000000 else 10000000)) 1000000000)
           \<lparr>flag_n = 2, flag_c = 1, flag_t = 100, flag_h = ''http://a'', flag_m = ''GET'',
             flag_p = []\<rparr> of
      Finished b rps \<Rightarrow> Some (DelayMin (stats b), DelayMax (stats b), DelayAvg (stats b))
    | _ \<Rightarrow> None)
   = Some (4000000, 10000000, 3000000)"
  by code_simp

text \<open>
  C8. The claim: requests-per-second is the total divided by the elapsed seconds, and
  the division is guarded by an explicit fallback when the elapsed time is zero. Line 147
  divides without a test. What \<open>PrintResult\<close> computes: the quotient when the elapsed
  time is not zero, and otherwise the \<open>float64\<close> results of a division by zero,
  \<open>+Inf\<close> for a positive total and \<open>NaN\<close> for a total of zero; it does not panic.
\<close>

theorem PrintResult_rps_unguarded:
  "PrintResult lib b =
     (b\<lparr>stats := (stats b)\<lparr>Runtime := time_Since lib (LaunchTime (stats b)),
          DelayAvg := duration_div (DelayMax (stats b) - DelayMin (stats b)) 2\<rparr>\<rparr>,
      if time_Since lib (LaunchTime (stats b)) = 0
      then (if RequestsTotal (stats b) = 0 then NaN else PosInf)
      else Ratio (RequestsTotal (stats b)) (time_Since lib (LaunchTime (stats b))))"
  by (simp add: PrintResult_def rps_of_def Let_def)

text \<open>
  The claim at a run of two requests reported with an elapsed time of zero: the printed
  rate is \<open>+Inf\<close>, the result of the unguarded division.
\<close>

theorem PrintResult_rps_zero_runtime:
  "(case main (mock_lib (\<lambda>w i. status 200 5000000) 0)
           ((flags_of ''http://a'' ''GET'' [])\<lparr>flag_n := 2\<rparr>) of
      Finished b rps \<Rightarrow> Some (Runtime (stats b), RequestsTotal (stats b), rps)
    | _ \<Rightarrow> None)
   = Some (0, 2, PosInf)"
  by code_simp

section \<open>The partition of the requests\<close>

text \<open>
  C5. The claim: for every \<open>n\<close> and every \<open>c > 0\<close> each of the \<open>c\<close> workers runs
  \<open>floor(n/c)\<close> iterations and a full run records exactly \<open>c * floor(n/c)\<close> attempts
  in the total counter. The counter is a \<open>uint32\<close> and \<open>n\<close> a \<open>uint\<close>, so what holds is:
  when the request can be built, worker \<open>w\<close> of the \<open>c\<close> workers adds to the success
  counter the successes among its own iterations \<open>0\<close> to \<open>floor(n/c) - 1\<close>, so that a
  server that answers 200 to one worker alone leaves the success counter at
  \<open>floor(n/c)\<close>; and the total counter, started at zero, ends at \<open>c * floor(n/c)\<close> modulo
  \<open>2^32\<close>, which is \<open>c * floor(n/c)\<close> itself when that is below \<open>2^32\<close>, and \<open>n\<close> when
  moreover \<open>c\<close> divides \<open>n\<close>.
\<close>

theorem Run_total_truncated_mod_2_32:
  assumes "concurrency b \<noteq> 0"
    and "worker_request lib (build_task lib b) = Inr req"
    and "RequestsTotal (stats b) = 0"
  shows "\<exists>b'. Run lib b = Inr b' \<and>
     RequestsSuccess (stats b') =
       RequestsSuccess (stats b) +
       word_of_nat (sum_list
         (map (successes lib req (unat (requests b) div unat (concurrency b)))
            [0..<unat (concurrency b)])) \<and>
     (\<forall>w0. w0 < unat (concurrency b) \<and>
        (\<forall>w i. answered_200 (client_Do lib req w i) \<longleftrightarrow> w = w0) \<longrightarrow>
        RequestsSuccess (stats b') =
          RequestsSuccess (stats b) + word_of_nat (unat (requests b) div unat (concurrency b))) \<and>
     unat (RequestsTotal (stats b')) =
       (unat (concurrency b) * (unat (requests b) div unat (concurrency b))) mod 2 ^ 32 \<and>
     (unat (concurrency b) * (unat (requests b) div unat (concurrency b)) < 2 ^ 32 \<longrightarrow>
        unat (RequestsTotal (stats b')) =
          unat (concurrency b) * (unat (requests b) div unat (concurrency b))) \<and>
     (unat (concurrency b) dvd unat (requests b) \<and> unat (requests b) < 2 ^ 32 \<longrightarrow>
        unat (RequestsTotal (stats b')) = unat (requests b))"
proof -
  define p where "p = unat (concurrency b) * (unat (requests b) div unat (concurrency b))"
  define k where "k = unat (requests b) div unat (concurrency b)"
  from assms(1) obtain b' where run: "Run lib b = Inr b'"
    by (auto simp: Run_def Let_def)
  from assms(2)
  have "http_NewRequest lib [] (host b @ ''?'' @ values_Encode lib (params b)) None = Inr req"
    by (simp add: worker_request_build_task)
  from Run_total [OF assms(1) this] run assms(3)
  have "RequestsTotal (stats b') = word_of_nat p"
    by (simp add: p_def)
  then have tot: "unat (RequestsTotal (stats b')) = p mod 2 ^ 32"
    by (simp add: unat_of_nat)
  have dv: "unat (concurrency b) dvd unat (requests b) \<Longrightarrow>
      unat (concurrency b) * (unat (requests b) div unat (concurrency b)) = unat (requests b)"
    by simp
  from Run_success [OF assms(1,2)] run
  have suc: "RequestsSuccess (stats b') =
      RequestsSuccess (stats b) +
      word_of_nat (sum_list (map (successes lib req k) [0..<unat (concurrency b)]))"
    by (simp add: k_def)
  have sel: "RequestsSuccess (stats b') = RequestsSuccess (stats b) + word_of_nat k"
    if "w0 < unat (concurrency b)"
      and "\<forall>w i. answered_200 (client_Do lib req w i) \<longleftrightarrow> w = w0" for w0
    using suc that(1) by (simp only: successes_selective [OF that(2)] sum_list_single) simp
  show ?thesis
    using run tot dv suc sel unfolding p_def k_def by (intro exI [of _ b']) auto
qed

text \<open>
  The theorem at 10 requests over 3 workers with a server that answers 200 to worker 1
  alone, which records 9 attempts and 3 successes, and at 10 requests over 5 workers,
  which records all 10.
\<close>

theorem Run_total_truncated_mod_2_32_witness:
  "concurrency (bench_of 10 3) \<noteq> 0 \<and>
   worker_request (mock_lib (\<lambda>w i. status (if w = 1 then 200 else 500) 5000000) 1000000000)
     (build_task (mock_lib (\<lambda>w i. status (if w = 1 then 200 else 500) 5000000) 1000000000)
        (bench_of 10 3)) =
     Inr \<lparr>req_method = ''GET'', req_url = ''http://a?'', req_body = None\<rparr> \<and>
   RequestsTotal (stats (bench_of 10 3)) = 0 \<and>
   (1::nat) < unat (concurrency (bench_of 10 3)) \<and>
   map_sum id counters
     (Run (mock_lib (\<lambda>w i. status (if w = 1 then 200 else 500) 5000000) 1000000000)
        (bench_of 10 3)) = Inr (9, 3, 0, 0) \<and>
   unat (concurrency (bench_of 10 5)) dvd unat (requests (bench_of 10 5)) \<and>
   map_sum id (unat \<circ> RequestsTotal \<circ> stats)
     (Run (mock_lib (\<lambda>w i. status 200 5000000) 1000000000) (bench_of 10 5)) = Inr 10"
proof -
  let ?sel = "mock_lib (\<lambda>w i. status (if w = 1 then 200 else 500) 5000000) 1000000000"
  let ?lib = "mock_lib (\<lambda>w i. status 200 5000000) 1000000000"
  let ?req = "\<lparr>req_method = ''GET'', req_url = ''http://a?'', req_body = None\<rparr>"
  have k3: "concurrency (bench_of 10 3) \<noteq> 0" and k5: "concurrency (bench_of 10 5) \<noteq> 0"
    by (simp_all add: bench_of_def NewBench_def)
  have r3: "worker_request ?sel (build_task ?sel (bench_of 10 3)) = Inr ?req"
    and r5: "worker_request ?lib (build_task ?lib (bench_of 10 5)) = Inr ?req"
    by code_simp+
  have z3: "RequestsTotal (stats (bench_of 10 3)) = 0"
    and z5: "RequestsTotal (stats (bench_of 10 5)) = 0"
    and s3: "RequestsSuccess (stats (bench_of 10 3)) = 0"
    by (simp_all add: bench_of_def NewBench_def zero_stats_def)
  have v: "unat (concurrency (bench_of 10 3)) = 3" "unat (requests (bench_of 10 3)) = 10"
    "unat (concurrency (bench_of 10 5)) = 5" "unat (requests (bench_of 10 5)) = 10"
    by (simp_all add: bench_of_def NewBench_def)
  have w1: "(1::nat) < unat (concurrency (bench_of 10 3))"
    by (simp add: v)
  have only: "\<forall>w i. answered_200 (client_Do ?sel ?req w i) \<longleftrightarrow> w = 1"
    by (simp add: mock_lib_def answered_200_def status_def)
  from Run_total_truncated_mod_2_32 [OF k3 r3 z3] obtain b3
    where run3: "Run ?sel (bench_of 10 3) = Inr b3"
      and sel: "\<forall>w0. w0 < unat (concurrency (bench_of 10 3)) \<and>
          (\<forall>w i. answered_200 (client_Do ?sel ?req w i) \<longleftrightarrow> w = w0) \<longrightarrow>
          RequestsSuccess (stats b3) =
            RequestsSuccess (stats (bench_of 10 3)) +
            word_of_nat (unat (requests (bench_of 10 3)) div unat (concurrency (bench_of 10 3)))"
      and tot: "unat (RequestsTotal (stats b3)) =
        (unat (concurrency (bench_of 10 3)) *
          (unat (requests (bench_of 10 3)) div unat (concurrency (bench_of 10 3)))) mod 2 ^ 32"
    by blast
  from sel w1 only
  have "RequestsSuccess (stats b3) =
      RequestsSuccess (stats (bench_of 10 3)) +
      word_of_nat (unat (requests (bench_of 10 3)) div unat (concurrency (bench_of 10 3)))"
    by blast
  then have suc3: "RequestsSuccess (stats b3) = 3"
    by (simp add: v s3)
  from tot have "unat (RequestsTotal (stats b3)) = unat (9 :: uint32)"
    by (simp add: v)
  then have tot3: "RequestsTotal (stats b3) = 9"
    by (simp only: word_unat_eq_iff)
  have "map_sum id counters (Run ?sel (bench_of 10 3)) = Inr (9, 3, 0, 0)"
    by code_simp
  with run3 have "RequestsFail (stats b3) = 0 \<and> RequestsTimeout (stats b3) = 0"
    by (simp add: counters_def)
  with suc3 tot3 run3 have t3: "map_sum id counters (Run ?sel (bench_of 10 3)) = Inr (9, 3, 0, 0)"
    by (simp add: counters_def)
  from Run_total_truncated_mod_2_32 [OF k5 r5 z5] obtain b5
    where "Run ?lib (bench_of 10 5) = Inr b5"
      and "unat (concurrency (bench_of 10 5)) dvd unat (requests (bench_of 10 5)) \<and>
          unat (requests (bench_of 10 5)) < 2 ^ 32 \<longrightarrow>
        unat (RequestsTotal (stats b5)) = unat (requests (bench_of 10 5))"
    by blast
  then have t5: "map_sum id (unat \<circ> RequestsTotal \<circ> stats) (Run ?lib (bench_of 10 5)) = Inr 10"
    by (simp add: v)
  have d: "unat (concurrency (bench_of 10 5)) dvd unat (requests (bench_of 10 5))"
    by (simp add: v)
  from k3 r3 z3 w1 t3 d t5 show ?thesis by blast
qed

text \<open>
  The claim at \<open>n = 2^32\<close> and \<open>c = 1\<close>: the single worker makes \<open>2^32\<close> attempts and
  the counter, having wrapped around, reads 0.
\<close>

theorem Run_total_wraps_at_2_32:
  "map_sum id (unat \<circ> RequestsTotal \<circ> stats)
     (Run (mock_lib (\<lambda>w i. status 200 5000000) 1000000000) (bench_of 4294967296 1)) = Inr 0"
proof -
  let ?lib = "mock_lib (\<lambda>w i. status 200 5000000) 1000000000" and ?b = "bench_of 4294967296 1"
  have c: "concurrency ?b \<noteq> 0"
    by (simp add: bench_of_def NewBench_def)
  have r: "http_NewRequest ?lib [] (host ?b @ ''?'' @ values_Encode ?lib (params ?b)) None =
      Inr \<lparr>req_method = ''GET'', req_url = ''http://a?'', req_body = None\<rparr>"
    by (simp add: mock_lib_def bench_of_def NewBench_def)
  have "map_sum id (RequestsTotal \<circ> stats) (Run ?lib ?b) = Inr 0"
    using Run_total [OF c r] by (simp add: bench_of_def NewBench_def zero_stats_def)
  then show ?thesis
    by (cases "Run ?lib ?b") auto
qed

section \<open>Argument parsing\<close>




text \<open>
  C10. \<open>Run\<close> divides by the concurrency without a test: it panics exactly when the
  concurrency is zero and returns otherwise; and \<open>ParseArgs\<close> accepts \<open>-c 0\<close> with a
  valid method and host, so that \<open>Run\<close> on the bench it has filled in panics.
\<close>

theorem Run_panics_iff_zero_concurrency:
  "((Run lib b = Inl DivideByZero) \<longleftrightarrow> concurrency b = 0) \<and>
   (concurrency b \<noteq> 0 \<longrightarrow> (\<exists>b'. Run lib b = Inr b')) \<and>
   (flag_c f = 0 \<and> flag_m f \<in> {''GET'', ''POST'', ''PUT'', ''PATCH'', ''DELETE''} \<and>
      url_ParseRequestURI lib (flag_h f) = Inr u \<longrightarrow>
      snd (ParseArgs lib f NewBench) = None \<and>
      concurrency (fst (ParseArgs lib f NewBench)) = 0 \<and>
      Run lib (fst (ParseArgs lib f NewBench)) = Inl DivideByZero)"
  unfolding member_allowed [symmetric]
  by (auto simp: Run_def ParseArgs_def Let_def split: sum.splits)

text \<open>The theorem at \<open>-c 0 -h http://a\<close>, and at a bench of 10 requests over 3 workers.\<close>

theorem Run_panics_iff_zero_concurrency_witness:
  "flag_Parse (mock_lib (\<lambda>w i. status 200 5000000) 1000000000) [''-c'', ''0'', ''-h'', ''http://a''] =
     Some ((flags_of ''http://a'' ''GET'' [])\<lparr>flag_c := 0\<rparr>) \<and>
   flag_c ((flags_of ''http://a'' ''GET'' [])\<lparr>flag_c := 0\<rparr>) = 0 \<and>
   url_ParseRequestURI (mock_lib (\<lambda>w i. status 200 5000000) 1000000000) ''http://a'' =
     Inr ''http://a'' \<and>
   snd (ParseArgs (mock_lib (\<lambda>w i. status 200 5000000) 1000000000)
     ((flags_of ''http://a'' ''GET'' [])\<lparr>flag_c := 0\<rparr>) NewBench) = None \<and>
   Run (mock_lib (\<lambda>w i. status 200 5000000) 1000000000)
     (fst (ParseArgs (mock_lib (\<lambda>w i. status 200 5000000) 1000000000)
       ((flags_of ''http://a'' ''GET'' [])\<lparr>flag_c := 0\<rparr>) NewBench)) = Inl DivideByZero \<and>
   concurrency (bench_of 10 3) \<noteq> 0 \<and>
   isl (Run (mock_lib (\<lambda>w i. status 200 5000000) 1000000000) (bench_of 10 3)) = False"
proof -
  let ?lib = "mock_lib (\<lambda>w i. status 200 5000000) 1000000000"
  let ?f = "(flags_of ''http://a'' ''GET'' [])\<lparr>flag_c := 0\<rparr>"
  have a: "flag_Parse ?lib [''-c'', ''0'', ''-h'', ''http://a''] = Some ?f"
    by code_simp
  have z: "flag_c ?f = 0" and m: "flag_m ?f = ''GET''"
    by (simp_all add: flags_of_def)
  have u: "url_ParseRequestURI ?lib (flag_h ?f) = Inr ''http://a''"
    by code_simp
  have c: "concurrency (bench_of 10 3) \<noteq> 0"
    by (simp add: bench_of_def NewBench_def)
  from Run_panics_iff_zero_concurrency [of ?lib "bench_of 10 3" ?f "''http://a''"] z m u c
  have "snd (ParseArgs ?lib ?f NewBench) = None"
    and "Run ?lib (fst (ParseArgs ?lib ?f NewBench)) = Inl DivideByZero"
    and "\<exists>b'. Run ?lib (bench_of 10 3) = Inr b'"
    by simp_all
  moreover from u have "url_ParseRequestURI ?lib ''http://a'' = Inr ''http://a''"
    by (simp add: flags_of_def)
  ultimately show ?thesis
    using a z c by auto
qed

text \<open>
  What \<open>main\<close> then does: the panic unwinds through the deferred \<open>cancel()\<close>, and the
  process ends in the crash or, if the watcher is faster, in its report of the empty
  statistics.
\<close>

lemma main_zero_concurrency:
  assumes "flag_c f = 0" and "snd (ParseArgs lib f NewBench) = None"
  shows "main lib f = Panicked DivideByZero \<or> (\<exists>b rps. main lib f = Watcher_exit b rps)"
proof -
  obtain b where p: "ParseArgs lib f NewBench = (b, None)"
    using assms(2) by (cases "ParseArgs lib f NewBench") auto
  from assms(1) p have "concurrency b = 0"
    by (auto simp: ParseArgs_def Let_def split: if_splits sum.splits)
  then have "Run lib b = Inl DivideByZero"
    by (simp add: Run_def Let_def)
  with p show ?thesis
    by (cases "watcher_wins lib") (auto simp: main_def split: prod.splits)
qed

section \<open>The extrema\<close>

text \<open>
  When the two updates of lines 135 to 140 run without interference, they keep the
  minimum at or below the maximum; so does every worker on its own, and so does a run
  with a single worker.
\<close>

lemma update_extrema_ordered:
  "DelayMin s \<le>s DelayMax s \<Longrightarrow>
   DelayMin (update_extrema d s) \<le>s DelayMax (update_extrema d s)"
  by (auto simp: update_extrema_def update_min_def update_max_def word_sle_eq word_sless_alt)

lemma iteration_ordered:
  "DelayMin s \<le>s DelayMax s \<Longrightarrow> DelayMin (iteration a s) \<le>s DelayMax (iteration a s)"
  unfolding iteration_def by (rule update_extrema_ordered) simp

lemma attempts_ordered:
  "DelayMin s \<le>s DelayMax s \<Longrightarrow>
   DelayMin (attempts do i k s) \<le>s DelayMax (attempts do i k s)"
  by (induction k arbitrary: i s) (simp_all add: iteration_ordered)

lemma LaunchTask_ordered:
  "DelayMin (stats b) \<le>s DelayMax (stats b) \<Longrightarrow>
   DelayMin (stats (LaunchTask lib w n t b)) \<le>s DelayMax (stats (LaunchTask lib w n t b))"
  by (simp add: LaunchTask_def attempts_ordered split: sum.splits)

lemma Run_ordered:
  assumes "concurrency b = 1" and "DelayMin (stats b) \<le>s DelayMax (stats b)"
    and "Run lib b = Inr b'"
  shows "DelayMin (stats b') \<le>s DelayMax (stats b')"
proof -
  let ?b1 = "b\<lparr>stats := (stats b)\<lparr>LaunchTime := time_Now lib\<rparr>\<rparr>"
  from assms(1,3) have "b' = LaunchTask lib 0 (requests b) (build_task lib ?b1) ?b1"
    by (simp add: Run_def Let_def)
  moreover from assms(2) have "DelayMin (stats ?b1) \<le>s DelayMax (stats ?b1)"
    by simp
  ultimately show ?thesis
    by (simp only: LaunchTask_ordered)
qed

lemma NewBench_extrema: "DelayMin (stats NewBench) = 0 \<and> DelayMax (stats NewBench) = 0"
  by (simp add: NewBench_def zero_stats_def)

section \<open>A worker on its own\<close>

text \<open>
  The steps of one worker, taken with no other worker in between, do what the loop body
  \<open>iteration\<close> does, and all its steps do what \<open>attempts\<close> does.
\<close>

lemma alone_add: "alone do (j + k) c = alone do k (alone do j c)"
proof (induction j arbitrary: c)
  case 0
  show ?case by simp
next
  case (Suc j)
  obtain t s where c: "c = (t, s)" by (cases c)
  show ?case unfolding c using Suc.IH [of "worker_step do t s"] by simp
qed

lemma alone_1: "alone do (Suc 0) (t, s) = worker_step do t s"
  by (cases "worker_step do t s") simp

lemma counters_part:
  assumes "w_pc t = AddTotal"
  shows "\<exists>k. alone do k (t, s) =
     (t\<lparr>w_pc := LoadMinZero\<rparr>, classify (fst (do (w_i t))) (s\<lparr>RequestsTotal := RequestsTotal s + 1\<rparr>))"
proof (cases "fst (do (w_i t))")
  case (Inl err)
  show ?thesis
  proof (cases "err = ErrHandlerTimeout")
    case True
    with Inl assms have "alone do (Suc (Suc (Suc 0))) (t, s) =
      (t\<lparr>w_pc := LoadMinZero\<rparr>, classify (fst (do (w_i t))) (s\<lparr>RequestsTotal := RequestsTotal s + 1\<rparr>))"
      by (simp add: worker_step_def classify_def Let_def)
    then show ?thesis ..
  next
    case False
    with Inl assms have "alone do (Suc (Suc 0)) (t, s) =
      (t\<lparr>w_pc := LoadMinZero\<rparr>, classify (fst (do (w_i t))) (s\<lparr>RequestsTotal := RequestsTotal s + 1\<rparr>))"
      by (simp add: worker_step_def classify_def Let_def)
    then show ?thesis ..
  qed
next
  case (Inr resp)
  with assms have "alone do (Suc (Suc 0)) (t, s) =
      (t\<lparr>w_pc := LoadMinZero\<rparr>, classify (fst (do (w_i t))) (s\<lparr>RequestsTotal := RequestsTotal s + 1\<rparr>))"
    by (simp add: worker_step_def classify_def Let_def)
  then show ?thesis ..
qed

lemma min_part:
  assumes "w_pc t = LoadMinZero"
  shows "\<exists>k. alone do k (t, s) = (t\<lparr>w_pc := LoadMax\<rparr>, update_min (snd (do (w_i t))) s)"
proof (cases "DelayMin s = 0")
  case True
  with assms have "alone do (Suc (Suc 0)) (t, s) =
     (t\<lparr>w_pc := LoadMax\<rparr>, update_min (snd (do (w_i t))) s)"
    by (simp add: worker_step_def Let_def update_min_def)
  then show ?thesis ..
next
  case False
  show ?thesis
  proof (cases "snd (do (w_i t)) <s DelayMin s")
    case True
    with False assms have "alone do (Suc (Suc (Suc 0))) (t, s) =
     (t\<lparr>w_pc := LoadMax\<rparr>, update_min (snd (do (w_i t))) s)"
      by (simp add: worker_step_def Let_def update_min_def)
    then show ?thesis ..
  next
    case nl: False
    with False assms have "alone do (Suc (Suc 0)) (t, s) =
     (t\<lparr>w_pc := LoadMax\<rparr>, update_min (snd (do (w_i t))) s)"
      by (simp add: worker_step_def Let_def update_min_def)
    then show ?thesis ..
  qed
qed

lemma max_part:
  assumes "w_pc t = LoadMax"
  shows "\<exists>k. alone do k (t, s) = (next_iteration t, update_max (snd (do (w_i t))) s)"
proof (cases "DelayMax s <s snd (do (w_i t))")
  case True
  with assms have "alone do (Suc (Suc 0)) (t, s) =
     (next_iteration t, update_max (snd (do (w_i t))) s)"
    by (simp add: worker_step_def Let_def next_iteration_def update_max_def)
  then show ?thesis ..
next
  case False
  with assms have "alone do (Suc 0) (t, s) =
     (next_iteration t, update_max (snd (do (w_i t))) s)"
    by (simp add: worker_step_def Let_def next_iteration_def update_max_def)
  then show ?thesis ..
qed

lemma alone_iteration:
  assumes "w_pc t = AddTotal"
  shows "\<exists>k. alone do k (t, s) = (next_iteration t, iteration (do (w_i t)) s)"
proof -
  let ?d = "snd (do (w_i t))"
  let ?s1 = "classify (fst (do (w_i t))) (s\<lparr>RequestsTotal := RequestsTotal s + 1\<rparr>)"
  obtain k1 where k1: "alone do k1 (t, s) = (t\<lparr>w_pc := LoadMinZero\<rparr>, ?s1)"
    using counters_part [OF assms] by blast
  have "\<exists>k. alone do k (t\<lparr>w_pc := LoadMinZero\<rparr>, ?s1) = (t\<lparr>w_pc := LoadMax\<rparr>, update_min ?d ?s1)"
    using min_part [of "t\<lparr>w_pc := LoadMinZero\<rparr>" "do" ?s1] by simp
  then obtain k2 where
    k2: "alone do k2 (t\<lparr>w_pc := LoadMinZero\<rparr>, ?s1) = (t\<lparr>w_pc := LoadMax\<rparr>, update_min ?d ?s1)" ..
  have "\<exists>k. alone do k (t\<lparr>w_pc := LoadMax\<rparr>, update_min ?d ?s1) =
      (next_iteration t, update_max ?d (update_min ?d ?s1))"
    using max_part [of "t\<lparr>w_pc := LoadMax\<rparr>" "do" "update_min ?d ?s1"]
    by (simp add: next_iteration_def)
  then obtain k3 where k3: "alone do k3 (t\<lparr>w_pc := LoadMax\<rparr>, update_min ?d ?s1) =
      (next_iteration t, update_max ?d (update_min ?d ?s1))" ..
  have "alone do (k1 + k2 + k3) (t, s) = (next_iteration t, iteration (do (w_i t)) s)"
    by (simp only: alone_add k1 k2 k3) (simp add: iteration_def update_extrema_def)
  then show ?thesis ..
qed

lemma alone_attempts:
  assumes "w_pc t = AddTotal" and "w_i t < w_n t"
  shows "\<exists>k. alone do k (t, s) =
     (t\<lparr>w_pc := Done, w_i := w_n t\<rparr>, attempts do (w_i t) (w_n t - w_i t) s)"
  using assms
proof (induction "w_n t - w_i t" arbitrary: t s)
  case 0
  then show ?case by simp
next
  case (Suc m)
  obtain k1 where k1: "alone do k1 (t, s) = (next_iteration t, iteration (do (w_i t)) s)"
    using alone_iteration [OF Suc.prems(1)] by blast
  have d: "w_n t - w_i t = Suc (w_n t - Suc (w_i t))" using Suc.prems(2) by simp
  show ?case
  proof (cases "Suc (w_i t) < w_n t")
    case True
    have "\<exists>k. alone do k (next_iteration t, iteration (do (w_i t)) s) =
       (next_iteration t\<lparr>w_pc := Done, w_i := w_n (next_iteration t)\<rparr>,
        attempts do (w_i (next_iteration t)) (w_n (next_iteration t) - w_i (next_iteration t))
          (iteration (do (w_i t)) s))"
      using Suc.hyps True by (intro Suc.hyps(1)) (auto simp: next_iteration_def)
    then obtain k2 where "alone do k2 (next_iteration t, iteration (do (w_i t)) s) =
       (t\<lparr>w_pc := Done, w_i := w_n t\<rparr>,
        attempts do (Suc (w_i t)) (w_n t - Suc (w_i t)) (iteration (do (w_i t)) s))"
      by (auto simp: next_iteration_def)
    then have "alone do (k1 + k2) (t, s) =
       (t\<lparr>w_pc := Done, w_i := w_n t\<rparr>, attempts do (w_i t) (w_n t - w_i t) s)"
      by (simp only: alone_add k1) (simp add: d)
    then show ?thesis ..
  next
    case False
    with Suc.prems have e: "w_n t = Suc (w_i t)" by simp
    have "alone do k1 (t, s) =
       (t\<lparr>w_pc := Done, w_i := w_n t\<rparr>, attempts do (w_i t) (w_n t - w_i t) s)"
      by (simp add: k1 next_iteration_def e)
    then show ?thesis ..
  qed
qed

section \<open>The counters under every schedule\<close>

text \<open>
  Each \<open>atomic.AddUint32\<close> is one step, so whatever the schedule, once every worker
  is done the total counter has grown by the number of iterations of all the workers.
\<close>

lemma worker_step_total:
  "worker_step do t s = (t', s') \<Longrightarrow>
   RequestsTotal s' + word_of_nat (adds t) = RequestsTotal s + word_of_nat (adds t')"
  by (cases "w_pc t")
    (auto simp: worker_step_def Let_def adds_def next_iteration_def split: sum.splits if_splits)

lemma worker_step_wf:
  "worker_step do t s = (t', s') \<Longrightarrow> wf_worker t \<Longrightarrow> wf_worker t' \<and> w_n t' = w_n t"
  by (cases "w_pc t")
    (auto simp: worker_step_def Let_def wf_worker_def next_iteration_def split: sum.splits if_splits)

lemma sum_list_adds_update:
  "w < length ts \<Longrightarrow>
   sum_list (map adds (ts[w := t'])) + adds (ts ! w) = sum_list (map adds ts) + adds t'"
  by (induction ts arbitrary: w) (auto split: nat.splits)

lemma interleave_total:
  "interleave do sched (ts, s) = (ts', s') \<Longrightarrow>
   RequestsTotal s' + word_of_nat (sum_list (map adds ts)) =
   RequestsTotal s + word_of_nat (sum_list (map adds ts'))"
proof (induction sched arbitrary: ts s)
  case Nil
  then show ?case by simp
next
  case (Cons w sched)
  show ?case
  proof (cases "w < length ts")
    case False
    with Cons show ?thesis by simp
  next
    case True
    obtain t1 s1 where st: "worker_step (do w) (ts ! w) s = (t1, s1)"
      by (cases "worker_step (do w) (ts ! w) s")
    with True Cons.prems have "interleave do sched (ts[w := t1], s1) = (ts', s')" by simp
    from Cons.IH [OF this]
    have a: "RequestsTotal s' + word_of_nat (sum_list (map adds (ts[w := t1]))) =
        RequestsTotal s1 + word_of_nat (sum_list (map adds ts'))" .
    have b: "RequestsTotal s1 + word_of_nat (adds (ts ! w)) = RequestsTotal s + word_of_nat (adds t1)"
      by (rule worker_step_total [OF st])
    have "sum_list (map adds (ts[w := t1])) + adds (ts ! w) = sum_list (map adds ts) + adds t1"
      by (rule sum_list_adds_update [OF True])
    then have "(word_of_nat (sum_list (map adds (ts[w := t1])) + adds (ts ! w)) :: uint32) =
        word_of_nat (sum_list (map adds ts) + adds t1)"
      by (rule arg_cong)
    then have c: "(word_of_nat (sum_list (map adds (ts[w := t1]))) :: uint32) + word_of_nat (adds (ts ! w)) =
        word_of_nat (sum_list (map adds ts)) + word_of_nat (adds t1)"
      by (simp only: of_nat_add)
    define U :: uint32 where "U = word_of_nat (sum_list (map adds (ts[w := t1])))"
    define T :: uint32 where "T = word_of_nat (sum_list (map adds ts))"
    define T' :: uint32 where "T' = word_of_nat (sum_list (map adds ts'))"
    define A :: uint32 where "A = word_of_nat (adds (ts ! w))"
    define A1 :: uint32 where "A1 = word_of_nat (adds t1)"
    note a' = a [folded U_def T'_def] and b' = b [folded A_def A1_def]
      and c' = c [folded U_def T_def A_def A1_def]
    have "(RequestsTotal s' + T) + A1 = RequestsTotal s' + (T + A1)" by (simp only: add.assoc)
    also have "\<dots> = RequestsTotal s' + (U + A)" by (simp only: c')
    also have "\<dots> = (RequestsTotal s' + U) + A" by (simp only: add.assoc)
    also have "\<dots> = (RequestsTotal s1 + T') + A" by (simp only: a')
    also have "\<dots> = (RequestsTotal s1 + A) + T'" by (simp only: add.assoc add.commute [of T' A])
    also have "\<dots> = (RequestsTotal s + A1) + T'" by (simp only: b')
    also have "\<dots> = (RequestsTotal s + T') + A1" by (simp only: add.assoc add.commute [of T' A1])
    finally have "RequestsTotal s' + T = RequestsTotal s + T'" by (simp only: add_right_cancel)
    then show ?thesis by (simp only: T_def T'_def)
  qed
qed

lemma list_all_update:
  "list_all P ts \<Longrightarrow> P t' \<Longrightarrow> list_all P (ts[w := t'])"
  by (induction ts arbitrary: w) (auto split: nat.splits)

lemma map_w_n_update:
  "w < length ts \<Longrightarrow> w_n t' = w_n (ts ! w) \<Longrightarrow> map w_n (ts[w := t']) = map w_n ts"
  by (induction ts arbitrary: w) (auto split: nat.splits)

lemma interleave_wf:
  "interleave do sched (ts, s) = (ts', s') \<Longrightarrow> list_all wf_worker ts \<Longrightarrow>
   list_all wf_worker ts' \<and> map w_n ts' = map w_n ts"
proof (induction sched arbitrary: ts s)
  case Nil
  then show ?case by simp
next
  case (Cons w sched)
  show ?case
  proof (cases "w < length ts")
    case False
    with Cons show ?thesis by simp
  next
    case True
    obtain t1 s1 where st: "worker_step (do w) (ts ! w) s = (t1, s1)"
      by (cases "worker_step (do w) (ts ! w) s")
    with True Cons.prems have r: "interleave do sched (ts[w := t1], s1) = (ts', s')" by simp
    from True Cons.prems(2) have "wf_worker (ts ! w)" by (simp add: list_all_length)
    from worker_step_wf [OF st this] have t1: "wf_worker t1" "w_n t1 = w_n (ts ! w)"
      by blast+
    have "list_all wf_worker (ts[w := t1])"
      by (rule list_all_update [OF Cons.prems(2) t1(1)])
    from Cons.IH [OF r this] have "list_all wf_worker ts'" "map w_n ts' = map w_n (ts[w := t1])"
      by blast+
    then show ?thesis
      by (simp only: map_w_n_update [OF True t1(2)])
  qed
qed

lemma adds_finished:
  "list_all wf_worker ts \<Longrightarrow> list_all (\<lambda>t. w_pc t = Done) ts \<Longrightarrow> map adds ts = map w_n ts"
  by (induction ts) (simp_all add: adds_def wf_worker_def)

lemma w_n_start_worker: "w_n (start_worker n) = n"
  by (simp add: start_worker_def)

lemma adds_start_worker: "adds (start_worker n) = 0"
  by (simp add: adds_def start_worker_def)

lemma wf_start_worker: "wf_worker (start_worker n)"
  by (simp add: wf_worker_def start_worker_def)

lemma map_w_n_start_worker: "map w_n (map start_worker ns) = ns"
  by (induction ns) (simp_all add: w_n_start_worker)

lemma sum_adds_start_worker: "sum_list (map adds (map start_worker ns)) = 0"
  by (induction ns) (simp_all add: adds_start_worker)

lemma list_all_wf_start_worker: "list_all wf_worker (map start_worker ns)"
  by (induction ns) (simp_all add: wf_start_worker)

lemma no_counter_update_lost:
  assumes "interleave do sched (map start_worker ns, s) = (ts', s')"
    and "list_all (\<lambda>t. w_pc t = Done) ts'"
  shows "RequestsTotal s' = RequestsTotal s + word_of_nat (sum_list ns)"
proof -
  from interleave_wf [OF assms(1) list_all_wf_start_worker]
  have wf: "list_all wf_worker ts'" and n: "map w_n ts' = map w_n (map start_worker ns)"
    by blast+
  have e: "map adds ts' = ns"
    by (simp only: adds_finished [OF wf assms(2)] n map_w_n_start_worker)
  have "RequestsTotal s' + word_of_nat (sum_list (map adds (map start_worker ns))) =
      RequestsTotal s + word_of_nat (sum_list (map adds ts'))"
    by (rule interleave_total [OF assms(1)])
  then show ?thesis
    by (simp only: e sum_adds_start_worker) simp
qed

section \<open>The extrema under a schedule\<close>

text \<open>
  C7. The claim: once a request has completed the recorded minimum is at most the
  recorded maximum, both being zero before, and every extremum update of a worker keeps
  this. It holds for updates that run one after the other and for a run with a single
  worker (\<open>update_extrema_ordered\<close>, \<open>Run_ordered\<close>), but lines 135 to 140 read and write
  the shared fields in separate steps. Two workers with one request each, of 10 ms and of 5 ms: both read the minimum
  as unset and the maximum as zero before either writes; the faster worker writes its
  minimum first and its maximum last. Both are done, and the statistics hold minimum
  10 ms and maximum 5 ms.
\<close>

theorem interleaved_extrema_out_of_order:
  "(case interleave (\<lambda>w i. status 200 (if w = 0 then 10000000 else 5000000))
           [0, 0, 0, 1, 1, 1, 1, 0, 0, 1, 0, 1]
           ([start_worker 1, start_worker 1], zero_stats) of
      (ts, s) \<Rightarrow>
        (map w_pc ts, RequestsTotal s, DelayMin s, DelayMax s, DelayMax s <s DelayMin s))
   = ([Done, Done], 2, 10000000, 5000000, True)"
  by code_simp

text \<open>
  C9. The claim: every update of the shared statistics is safe under concurrent workers,
  the counters by atomic increments and each extremum by an atomic compare-and-swap, so
  that no update is lost under any interleaving. The counters are incremented by
  \<open>atomic.AddUint32\<close> and lose nothing (\<open>no_counter_update_lost\<close>); the extrema are
  plain fields. Two workers with one request each, of 10 ms and of 5 ms: both read the
  minimum as unset, the faster writes 5 ms and the slower overwrites it with 10 ms. Both
  are done, all four counters are right, and the recorded minimum is 10 ms, where either
  order of the two updates run whole gives 5 ms.
\<close>

theorem interleaved_minimum_update_lost:
  "(case interleave (\<lambda>w i. status 200 (if w = 0 then 10000000 else 5000000))
           [0, 0, 0, 1, 1, 1, 1, 0, 0, 0, 1]
           ([start_worker 1, start_worker 1], zero_stats) of
      (ts, s) \<Rightarrow> (map w_pc ts, counters (NewBench\<lparr>stats := s\<rparr>), DelayMin s, DelayMax s))
   = ([Done, Done], (2, 2, 0, 0), 10000000, 10000000) \<and>
   DelayMin (iteration (status 200 5000000) (iteration (status 200 10000000) zero_stats)) =
     5000000 \<and>
   DelayMin (iteration (status 200 10000000) (iteration (status 200 5000000) zero_stats)) =
     5000000"
  by code_simp

end
